theory Spec2Isabelle
  imports Main "HOL-Library.Char_ord" "HOL-Library.List_Lexorder"
begin

section \<open>Python values, dictionaries and exceptions\<close>

text \<open>
  The program is asynchronous Python over an SQLite file. Every function of
  \<^verbatim>\<open>db.py\<close>, \<^verbatim>\<open>user_manager.py\<close>, \<^verbatim>\<open>feed_manager.py\<close> and \<^verbatim>\<open>ai_summary.py\<close> wraps its
  body in \<^verbatim>\<open>try: ... except Exception\<close>, and several of these handlers are reached
  only because a dictionary key, a module attribute or a keyword argument is
  spelled differently at the use and at the definition. The model therefore
  keeps dictionaries as maps from key strings, module attributes as a
  name-indexed table and raised exceptions as values.
\<close>

datatype exn =
    KeyError string
  | AttributeError string
  | TypeError string
  | OperationalError

datatype pyval =
    PNone
  | PBool bool
  | PInt int
  | PStr string
  | PList "pyval list"
  | PDict "(pyval \<times> pyval) list"

type_synonym pydict = "string \<rightharpoonup> pyval"

text \<open>\<^verbatim>\<open>d[k]\<close>: raises KeyError when the key is absent.\<close>

definition getitem :: "pydict \<Rightarrow> string \<Rightarrow> exn + pyval" where
  "getitem d k = (case d k of None \<Rightarrow> Inl (KeyError k) | Some v \<Rightarrow> Inr v)"

text \<open>Truth value testing, as \<^verbatim>\<open>if x\<close> and \<^verbatim>\<open>not x\<close> do it.\<close>

fun truthy :: "pyval \<Rightarrow> bool" where
  "truthy PNone = False"
| "truthy (PBool b) = b"
| "truthy (PInt i) = (i \<noteq> 0)"
| "truthy (PStr s) = (s \<noteq> [])"
| "truthy (PList xs) = (xs \<noteq> [])"
| "truthy (PDict kvs) = (kvs \<noteq> [])"

section \<open>Strings\<close>

text \<open>
  Strings are sequences of characters with code points below 256; there
  \<^verbatim>\<open>str.lower\<close> acts character by character: it moves \<^verbatim>\<open>A\<close>-\<^verbatim>\<open>Z\<close> and the
  upper-case letters of Latin-1 (192-222 except the multiplication sign 215)
  up by 32 and leaves every other character alone.
\<close>

definition lower_char :: "char \<Rightarrow> char" where
  "lower_char c =
     (let n = (of_char c :: nat)
      in if (65 \<le> n \<and> n \<le> 90) \<or> (192 \<le> n \<and> n \<le> 222 \<and> n \<noteq> 215)
         then char_of (n + 32) else c)"

definition lower :: "string \<Rightarrow> string" where
  "lower s = map lower_char s"

text \<open>\<^verbatim>\<open>needle in hay\<close> on two strings: \<^verbatim>\<open>needle\<close> occurs as a contiguous run.\<close>

fun starts_with :: "string \<Rightarrow> string \<Rightarrow> bool" where
  "starts_with [] hay = True"
| "starts_with (c # cs) [] = False"
| "starts_with (c # cs) (h # hs) = (c = h \<and> starts_with cs hs)"

fun str_contains :: "string \<Rightarrow> string \<Rightarrow> bool" where
  "str_contains needle [] = (needle = [])"
| "str_contains needle (h # hs) = (starts_with needle (h # hs) \<or> str_contains needle hs)"

section \<open>Operations on Python values\<close>

text \<open>\<^verbatim>\<open>for x in v\<close>: a list yields its items, a string its characters, a dictionary
  its keys; \<^verbatim>\<open>None\<close>, booleans and integers are not iterable.\<close>

fun py_iter :: "pyval \<Rightarrow> exn + pyval list" where
  "py_iter (PList xs) = Inr xs"
| "py_iter (PStr s) = Inr (map (\<lambda>c. PStr [c]) s)"
| "py_iter (PDict kvs) = Inr (map fst kvs)"
| "py_iter v = Inl (TypeError ''object is not iterable'')"

text \<open>\<^verbatim>\<open>v.lower()\<close>: only strings have the method.\<close>

fun py_lower :: "pyval \<Rightarrow> exn + string" where
  "py_lower (PStr s) = Inr (lower s)"
| "py_lower v = Inl (AttributeError ''lower'')"

text \<open>\<^verbatim>\<open>x in v\<close>: membership in a list or among the keys of a dictionary,
  substring test in a string (whose left operand must be a string).\<close>

fun py_contains :: "pyval \<Rightarrow> pyval \<Rightarrow> exn + bool" where
  "py_contains x (PList xs) = Inr (x \<in> set xs)"
| "py_contains x (PDict kvs) = Inr (x \<in> fst ` set kvs)"
| "py_contains (PStr n) (PStr s) = Inr (str_contains n s)"
| "py_contains x (PStr s) = Inl (TypeError ''in <string> requires string as left operand'')"
| "py_contains x v = Inl (TypeError ''argument is not iterable'')"

section \<open>The SQLite store (db.py)\<close>

text \<open>
  Table \<^verbatim>\<open>users\<close>: the columns \<^verbatim>\<open>cats\<close> and \<^verbatim>\<open>keywords\<close> hold JSON text and are
  read back through \<^verbatim>\<open>json.loads\<close>; the row keeps the decoded value.
\<close>

record user_row =
  u_uid :: int
  u_uname :: string
  u_cats :: pyval
  u_keywords :: pyval
  u_created_at :: string

text \<open>Table \<^verbatim>\<open>unread_posts\<close>; \<^verbatim>\<open>published\<close> and \<^verbatim>\<open>summary\<close> are nullable.\<close>

record unread_row =
  p_id :: nat
  p_uid :: int
  p_cat :: string
  p_title :: string
  p_link :: string
  p_published :: "string option"
  p_summary :: "string option"
  p_created_at :: string

text \<open>
  What a Discord direct message carries: a plain text, the embed built by
  \<^verbatim>\<open>utils.create_feed_embed\<close> or the one built by \<^verbatim>\<open>utils.create_summary_embed\<close>.
\<close>

datatype message =
    Text pyval
  | FeedEmbed string string string string string "string option"
  | SummaryEmbed pyval pyval pyval

text \<open>
  The state the program runs in: the three tables read and written here,
  \<^verbatim>\<open>users\<close>, \<^verbatim>\<open>last_seen\<close> (a feed url, the primary key, to
  \<^verbatim>\<open>(last_entry_id, last_checked)\<close>) and \<^verbatim>\<open>unread_posts\<close> with its AUTOINCREMENT
  counter \<^verbatim>\<open>unread_seq\<close>. \<^verbatim>\<open>faults\<close> is the schedule of storage faults: each
  database operation consumes its head, and \<^verbatim>\<open>True\<close> makes that operation raise
  inside its \<^verbatim>\<open>try\<close> block (an exhausted schedule means the storage works).
  \<^verbatim>\<open>clock\<close> and \<^verbatim>\<open>ticks\<close> give the successive readings of
  \<^verbatim>\<open>datetime.utcnow().isoformat()\<close>. \<^verbatim>\<open>dms\<close> logs the direct messages delivered.
\<close>

record world =
  users_tbl :: "user_row list"
  last_seen_tbl :: "string \<rightharpoonup> string \<times> string"
  unread_tbl :: "unread_row list"
  unread_seq :: nat
  faults :: "bool list"
  clock :: "nat \<Rightarrow> string"
  ticks :: nat
  dms :: "(int \<times> message) list"

definition connect :: "world \<Rightarrow> bool \<times> world" where
  "connect w =
     (case faults w of
        [] \<Rightarrow> (True, w)
      | f # fs \<Rightarrow> (\<not> f, w\<lparr>faults := fs\<rparr>))"

definition utcnow :: "world \<Rightarrow> string \<times> world" where
  "utcnow w = (clock w (ticks w), w\<lparr>ticks := Suc (ticks w)\<rparr>)"

definition update_last_seen :: "string \<Rightarrow> string \<Rightarrow> world \<Rightarrow> bool \<times> world" where
  "update_last_seen url entry_id w =
     (case connect w of
        (True, w1) \<Rightarrow>
          (case utcnow w1 of
             (now, w2) \<Rightarrow> (True, w2\<lparr>last_seen_tbl := (last_seen_tbl w2)(url \<mapsto> (entry_id, now))\<rparr>))
      | (False, w1) \<Rightarrow> (False, w1))"

definition get_last_seen :: "string \<Rightarrow> world \<Rightarrow> string option \<times> world" where
  "get_last_seen url w =
     (case connect w of
        (True, w1) \<Rightarrow> (map_option fst (last_seen_tbl w1 url), w1)
      | (False, w1) \<Rightarrow> (None, w1))"

text \<open>
  \<^verbatim>\<open>get_user\<close>: the row with the given primary key as a dictionary, \<^verbatim>\<open>None\<close> when
  there is none or when the storage raises.
\<close>

definition user_dict :: "user_row \<Rightarrow> pydict" where
  "user_dict r =
     [''uid'' \<mapsto> PInt (u_uid r), ''uname'' \<mapsto> PStr (u_uname r), ''cats'' \<mapsto> u_cats r,
      ''keywords'' \<mapsto> u_keywords r, ''created_at'' \<mapsto> PStr (u_created_at r)]"

definition get_user :: "int \<Rightarrow> world \<Rightarrow> pydict option \<times> world" where
  "get_user uid w =
     (case connect w of
        (True, w1) \<Rightarrow> (map_option user_dict (find (\<lambda>r. u_uid r = uid) (users_tbl w1)), w1)
      | (False, w1) \<Rightarrow> (None, w1))"

text \<open>\<^verbatim>\<open>get_all_users\<close> builds its dictionaries without \<^verbatim>\<open>created_at\<close>.\<close>

definition all_users_dict :: "user_row \<Rightarrow> pydict" where
  "all_users_dict r =
     [''uid'' \<mapsto> PInt (u_uid r), ''uname'' \<mapsto> PStr (u_uname r), ''cats'' \<mapsto> u_cats r,
      ''keywords'' \<mapsto> u_keywords r]"

definition get_all_users :: "world \<Rightarrow> pydict list \<times> world" where
  "get_all_users w =
     (case connect w of
        (True, w1) \<Rightarrow> (map all_users_dict (users_tbl w1), w1)
      | (False, w1) \<Rightarrow> ([], w1))"

text \<open>
  \<^verbatim>\<open>add_unread_post\<close>: INSERT with a fresh AUTOINCREMENT id and the current time as
  \<^verbatim>\<open>created_at\<close>.
\<close>

definition add_unread_post ::
  "int \<Rightarrow> string \<Rightarrow> string \<Rightarrow> string \<Rightarrow> string option \<Rightarrow> string option \<Rightarrow> world \<Rightarrow> bool \<times> world" where
  "add_unread_post uid cat title link published summary w =
     (case connect w of
        (True, w1) \<Rightarrow>
          (case utcnow w1 of
             (now, w2) \<Rightarrow>
               (True,
                w2\<lparr>unread_tbl := unread_tbl w2 @
                      [\<lparr>p_id = Suc (unread_seq w2), p_uid = uid, p_cat = cat, p_title = title,
                        p_link = link, p_published = published, p_summary = summary,
                        p_created_at = now\<rparr>],
                    unread_seq := Suc (unread_seq w2)\<rparr>))
      | (False, w1) \<Rightarrow> (False, w1))"

text \<open>
  \<^verbatim>\<open>ORDER BY created_at DESC\<close>: the column is TEXT, compared as strings. SQL leaves
  the order of rows with equal keys open; here they keep their table order.
\<close>

fun insert_desc :: "unread_row \<Rightarrow> unread_row list \<Rightarrow> unread_row list" where
  "insert_desc r [] = [r]"
| "insert_desc r (x # xs) =
     (if p_created_at x \<le> p_created_at r then r # x # xs else x # insert_desc r xs)"

definition order_by_created_at_desc :: "unread_row list \<Rightarrow> unread_row list" where
  "order_by_created_at_desc rows = foldr insert_desc rows []"

text \<open>Descending order of \<^verbatim>\<open>created_at\<close>: the first row is at least as recent as the second.\<close>

abbreviation newer_first :: "unread_row \<Rightarrow> unread_row \<Rightarrow> bool" where
  "newer_first a b \<equiv> p_created_at b \<le> p_created_at a"

text \<open>\<^verbatim>\<open>LIMIT ?\<close>: a negative bound means no bound in SQLite.\<close>

definition sql_limit :: "int \<Rightarrow> 'a list \<Rightarrow> 'a list" where
  "sql_limit n xs = (if n < 0 then xs else take (nat n) xs)"

definition post_dict :: "unread_row \<Rightarrow> pydict" where
  "post_dict r =
     [''id'' \<mapsto> PInt (int (p_id r)), ''cat'' \<mapsto> PStr (p_cat r), ''title'' \<mapsto> PStr (p_title r),
      ''link'' \<mapsto> PStr (p_link r),
      ''published'' \<mapsto> (case p_published r of None \<Rightarrow> PNone | Some s \<Rightarrow> PStr s),
      ''summary'' \<mapsto> (case p_summary r of None \<Rightarrow> PNone | Some s \<Rightarrow> PStr s),
      ''created_at'' \<mapsto> PStr (p_created_at r)]"

definition get_unread_posts :: "int \<Rightarrow> int \<Rightarrow> world \<Rightarrow> pydict list \<times> world" where
  "get_unread_posts uid limit w =
     (case connect w of
        (True, w1) \<Rightarrow>
          (map post_dict
             (sql_limit limit
                (order_by_created_at_desc (filter (\<lambda>r. p_uid r = uid) (unread_tbl w1)))),
           w1)
      | (False, w1) \<Rightarrow> ([], w1))"

definition clear_unread_posts :: "int \<Rightarrow> world \<Rightarrow> bool \<times> world" where
  "clear_unread_posts uid w =
     (case connect w of
        (True, w1) \<Rightarrow> (True, w1\<lparr>unread_tbl := filter (\<lambda>r. p_uid r \<noteq> uid) (unread_tbl w1)\<rparr>)
      | (False, w1) \<Rightarrow> (False, w1))"

text \<open>
  \<^verbatim>\<open>trim_unread_posts\<close>: deletes the rows of the pair whose id is not among the ids
  of the first \<^verbatim>\<open>limit\<close> rows of the pair in descending \<^verbatim>\<open>created_at\<close> order.
\<close>

definition mailbox :: "int \<Rightarrow> string \<Rightarrow> world \<Rightarrow> unread_row list" where
  "mailbox uid cat w = filter (\<lambda>r. p_uid r = uid \<and> p_cat r = cat) (unread_tbl w)"

definition trim_unread_posts :: "int \<Rightarrow> string \<Rightarrow> int \<Rightarrow> world \<Rightarrow> bool \<times> world" where
  "trim_unread_posts uid cat limit w =
     (case connect w of
        (True, w1) \<Rightarrow>
          (let keep = map p_id (sql_limit limit (order_by_created_at_desc (mailbox uid cat w1)))
           in (True,
               w1\<lparr>unread_tbl :=
                    filter (\<lambda>r. \<not> (p_uid r = uid \<and> p_cat r = cat \<and> p_id r \<notin> set keep))
                      (unread_tbl w1)\<rparr>))
      | (False, w1) \<Rightarrow> (False, w1))"

section \<open>Subscribers and keyword filter (user_manager.py)\<close>

text \<open>
  \<^verbatim>\<open>get_users_by_cat\<close>: the list comprehension
  \<^verbatim>\<open>[user for user in all_users if cat in user["subscribed_cats"]]\<close>
  evaluates its condition for every user in turn and raises what the condition
  raises; the handler of the function then returns \<^verbatim>\<open>[]\<close>.
\<close>

fun users_subscribed :: "string \<Rightarrow> pydict list \<Rightarrow> exn + pydict list" where
  "users_subscribed cat [] = Inr []"
| "users_subscribed cat (user # rest) =
     (case getitem user ''subscribed_cats'' of
        Inl e \<Rightarrow> Inl e
      | Inr subscribed \<Rightarrow>
          (case py_contains (PStr cat) subscribed of
             Inl e \<Rightarrow> Inl e
           | Inr b \<Rightarrow>
               (case users_subscribed cat rest of
                  Inl e \<Rightarrow> Inl e
                | Inr us \<Rightarrow> Inr (if b then user # us else us))))"

definition get_users_by_cat :: "string \<Rightarrow> world \<Rightarrow> pydict list \<times> world" where
  "get_users_by_cat cat w =
     (case get_all_users w of
        (all_users, w1) \<Rightarrow>
          (case users_subscribed cat all_users of
             Inl e \<Rightarrow> ([], w1)
           | Inr us \<Rightarrow> (us, w1)))"

text \<open>\<^verbatim>\<open>get_user_keywords\<close>: \<^verbatim>\<open>user["keywords"] if user else []\<close>, and \<^verbatim>\<open>[]\<close> on any exception.\<close>

definition get_user_keywords :: "int \<Rightarrow> world \<Rightarrow> pyval \<times> world" where
  "get_user_keywords uid w =
     (case get_user uid w of
        (None, w1) \<Rightarrow> (PList [], w1)
      | (Some user, w1) \<Rightarrow>
          (case getitem user ''keywords'' of
             Inl e \<Rightarrow> (PList [], w1)
           | Inr kws \<Rightarrow> (kws, w1)))"

text \<open>
  \<^verbatim>\<open>any(keyword.lower() in content for keyword in keywords)\<close>: stops at the first
  keyword that matches, raises what an earlier keyword raises.
\<close>

fun any_keyword_in :: "pyval list \<Rightarrow> string \<Rightarrow> exn + bool" where
  "any_keyword_in [] content = Inr False"
| "any_keyword_in (keyword # rest) content =
     (case py_lower keyword of
        Inl e \<Rightarrow> Inl e
      | Inr k \<Rightarrow> if str_contains k content then Inr True else any_keyword_in rest content)"

text \<open>
  The \<^verbatim>\<open>try\<close> body of \<^verbatim>\<open>should_show_post\<close>;
  \<^verbatim>\<open>content = f"{title} {summary}".lower()\<close> puts one space between the two texts.
\<close>

definition should_show_post_body :: "int \<Rightarrow> string \<Rightarrow> string \<Rightarrow> world \<Rightarrow> (exn + bool) \<times> world" where
  "should_show_post_body uid title summary w =
     (case get_user_keywords uid w of
        (keywords, w1) \<Rightarrow>
          if \<not> truthy keywords then (Inr True, w1)
          else
            (let content = lower (title @ '' '' @ summary)
             in case py_iter keywords of
                  Inl e \<Rightarrow> (Inl e, w1)
                | Inr kws \<Rightarrow> (any_keyword_in kws content, w1)))"

text \<open>\<^verbatim>\<open>should_show_post\<close>: the handler \<^verbatim>\<open>except Exception: return True\<close> around the body.\<close>

definition should_show_post :: "int \<Rightarrow> string \<Rightarrow> string \<Rightarrow> world \<Rightarrow> bool \<times> world" where
  "should_show_post uid title summary w =
     (case should_show_post_body uid title summary w of
        (Inl e, w1) \<Rightarrow> (True, w1)
      | (Inr b, w1) \<Rightarrow> (b, w1))"

text \<open>
  The functions of the module \<^verbatim>\<open>user_manager\<close> that take a category and return
  users, by attribute name. The module defines \<^verbatim>\<open>setup_user\<close>, \<^verbatim>\<open>add_cat_to_user\<close>,
  \<^verbatim>\<open>remove_cat_from_user\<close>, \<^verbatim>\<open>get_user_cats\<close>, \<^verbatim>\<open>get_user_feeds\<close>, \<^verbatim>\<open>get_users_by_cat\<close>,
  \<^verbatim>\<open>add_keyword_filter\<close>, \<^verbatim>\<open>get_user_keywords\<close>, \<^verbatim>\<open>should_show_post\<close>, \<^verbatim>\<open>get_user_stats\<close>,
  \<^verbatim>\<open>is_user_registered\<close> and \<^verbatim>\<open>get_all_active_users\<close>; \<^verbatim>\<open>module.name\<close> raises
  AttributeError for any other name.
\<close>

definition user_manager :: "string \<rightharpoonup> (string \<Rightarrow> world \<Rightarrow> pydict list \<times> world)" where
  "user_manager = [''get_users_by_cat'' \<mapsto> get_users_by_cat]"

definition module_getattr :: "(string \<rightharpoonup> 'f) \<Rightarrow> string \<Rightarrow> exn + 'f" where
  "module_getattr m name = (case m name of None \<Rightarrow> Inl (AttributeError name) | Some f \<Rightarrow> Inr f)"

section \<open>The novelty filter (feed_manager.py)\<close>

text \<open>
  A parsed feed entry is a dictionary; the text fields read here
  (\<^verbatim>\<open>id\<close>, \<^verbatim>\<open>link\<close>, \<^verbatim>\<open>title\<close>, \<^verbatim>\<open>summary\<close>, \<^verbatim>\<open>description\<close>, \<^verbatim>\<open>published\<close>, \<^verbatim>\<open>updated\<close>)
  are strings when present.
\<close>

type_synonym entry = "string \<rightharpoonup> string"

text \<open>
  \<^verbatim>\<open>entry.get("id") or entry.get("link") or entry.get("title", "unknown")\<close>:
  \<^verbatim>\<open>or\<close> skips a missing or empty value; the last operand is returned as it is,
  so a title that is present and empty gives the empty id.
\<close>

definition get_entry_id :: "entry \<Rightarrow> string" where
  "get_entry_id e =
     (let title = (case e ''title'' of None \<Rightarrow> ''unknown'' | Some t \<Rightarrow> t);
          link_or_title = (case e ''link'' of None \<Rightarrow> title | Some l \<Rightarrow> if l \<noteq> [] then l else title)
      in case e ''id'' of None \<Rightarrow> link_or_title | Some i \<Rightarrow> if i \<noteq> [] then i else link_or_title)"

text \<open>
  The \<^verbatim>\<open>for entry in feed.entries\<close> loop of \<^verbatim>\<open>get_new_entries\<close>, with its two
  variables \<^verbatim>\<open>latest_id\<close> and \<^verbatim>\<open>new_entries\<close>; a \<^verbatim>\<open>break\<close> returns them.
\<close>

fun novelty_loop ::
  "string option \<Rightarrow> entry list \<Rightarrow> string option \<Rightarrow> entry list \<Rightarrow> string option \<times> entry list" where
  "novelty_loop last_seen_id [] latest_id new_entries = (latest_id, new_entries)"
| "novelty_loop last_seen_id (e # rest) latest_id new_entries =
     (let entry_id = get_entry_id e;
          latest_id' = (if latest_id = None then Some entry_id else latest_id)
      in case last_seen_id of
           None \<Rightarrow> (latest_id', new_entries @ [e])
         | Some seen \<Rightarrow>
             if entry_id = seen then (latest_id', new_entries)
             else novelty_loop last_seen_id rest latest_id' (new_entries @ [e]))"

text \<open>
  \<^verbatim>\<open>get_new_entries(feed_url, feed)\<close>, with \<^verbatim>\<open>feed.entries\<close> as the second argument.
  \<^verbatim>\<open>if latest_id and new_entries\<close> tests truthiness: an empty \<^verbatim>\<open>latest_id\<close> fails
  it. Nothing in the \<^verbatim>\<open>try\<close> body raises for string-valued entries (the
  database functions catch their own exceptions), so the handler returning
  \<^verbatim>\<open>[]\<close> has no branch here.
\<close>

definition get_new_entries :: "string \<Rightarrow> entry list \<Rightarrow> world \<Rightarrow> entry list \<times> world" where
  "get_new_entries feed_url entries w =
     (case get_last_seen feed_url w of
        (last_seen_id, w1) \<Rightarrow>
          if entries = [] then ([], w1)
          else
            (case novelty_loop last_seen_id entries None [] of
               (latest_id, new_entries) \<Rightarrow>
                 (case latest_id of
                    Some lid \<Rightarrow>
                      if lid \<noteq> [] \<and> new_entries \<noteq> []
                      then (new_entries, snd (update_last_seen feed_url lid w1))
                      else (new_entries, w1)
                  | None \<Rightarrow> (new_entries, w1))))"

section \<open>Fan-out of new entries (feed_manager.py)\<close>

text \<open>
  \<^verbatim>\<open>utils.clean_html\<close> (regular-expression substitutions) and
  \<^verbatim>\<open>utils.get_entry_thumbnail\<close> (probing of the parser's entry object) are pure,
  total functions of their argument; nothing below depends on what they
  compute, so they are parameters.
\<close>

record utils =
  clean_html :: "string \<Rightarrow> string"
  get_entry_thumbnail :: "entry \<Rightarrow> string option"

text \<open>\<^verbatim>\<open>entry.get(key, default)\<close>.\<close>

definition entry_get :: "entry \<Rightarrow> string \<Rightarrow> string \<Rightarrow> string" where
  "entry_get e k d = (case e k of None \<Rightarrow> d | Some v \<Rightarrow> v)"

text \<open>
  The Discord client: \<^verbatim>\<open>bot.fetch_user(uid)\<close> followed by \<^verbatim>\<open>send\<close> either delivers
  the message or raises; the bot says for which users it delivers.
\<close>

type_synonym bot = "int \<Rightarrow> bool"

definition send_dm :: "bot \<Rightarrow> int \<Rightarrow> message \<Rightarrow> world \<Rightarrow> bool \<times> world" where
  "send_dm b uid m w = (if b uid then (True, w\<lparr>dms := dms w @ [(uid, m)]\<rparr>) else (False, w))"

text \<open>
  \<^verbatim>\<open>fetch_feed\<close>: the network answers a url with a parsed entry list (newest
  first), or the fetch fails and the function returns \<^verbatim>\<open>None\<close>.
\<close>

type_synonym net = "string \<rightharpoonup> entry list"

definition fetch_feed :: "net \<Rightarrow> string \<Rightarrow> entry list option" where
  "fetch_feed n feed_url = n feed_url"

text \<open>
  The loop \<^verbatim>\<open>for user in users\<close> of \<^verbatim>\<open>post_entry_to_discord\<close>, inside the
  function's handler: an exception from \<^verbatim>\<open>user["user_id"]\<close> ends the function, a
  failed send is caught per user. A user id is a value of the INTEGER PRIMARY
  KEY column; another value is a type error here.
\<close>

fun post_to_users :: "bot \<Rightarrow> message \<Rightarrow> string \<Rightarrow> string \<Rightarrow> pydict list \<Rightarrow> world \<Rightarrow> world" where
  "post_to_users b emb title summary [] w = w"
| "post_to_users b emb title summary (user # rest) w =
     (case getitem user ''user_id'' of
        Inr (PInt user_id) \<Rightarrow>
          (case should_show_post user_id title summary w of
             (False, w1) \<Rightarrow> post_to_users b emb title summary rest w1
           | (True, w1) \<Rightarrow>
               post_to_users b emb title summary rest (snd (send_dm b user_id emb w1)))
      | _ \<Rightarrow> w)"

definition post_entry_to_discord ::
  "bot \<Rightarrow> string \<Rightarrow> string \<Rightarrow> string \<Rightarrow> string \<Rightarrow> string \<Rightarrow> string option \<Rightarrow> pydict list \<Rightarrow>
   world \<Rightarrow> world" where
  "post_entry_to_discord b category title link summary published thumbnail_url users w =
     post_to_users b (FeedEmbed title link summary category published thumbnail_url)
       title summary users w"

text \<open>
  The inner loop \<^verbatim>\<open>for user in users\<close> of \<^verbatim>\<open>process_feed\<close>: filter, enqueue, trim to
  10. An exception leaves the loop with the state reached so far.
\<close>

fun enqueue_for_users ::
  "string \<Rightarrow> string \<Rightarrow> string \<Rightarrow> string \<Rightarrow> string \<Rightarrow> pydict list \<Rightarrow> world \<Rightarrow> (exn + unit) \<times> world" where
  "enqueue_for_users category title link published summary [] w = (Inr (), w)"
| "enqueue_for_users category title link published summary (user # rest) w =
     (case getitem user ''user_id'' of
        Inl e \<Rightarrow> (Inl e, w)
      | Inr (PInt user_id) \<Rightarrow>
          (case should_show_post user_id title summary w of
             (False, w1) \<Rightarrow> enqueue_for_users category title link published summary rest w1
           | (True, w1) \<Rightarrow>
               (case add_unread_post user_id category title link (Some published) (Some summary) w1 of
                  (added, w2) \<Rightarrow>
                    (case trim_unread_posts user_id category 10 w2 of
                       (trimmed, w3) \<Rightarrow>
                         enqueue_for_users category title link published summary rest w3)))
      | Inr v \<Rightarrow> (Inl (TypeError ''user id is not an integer''), w))"

text \<open>The outer loop \<^verbatim>\<open>for entry in reversed(new_entries)\<close>, given the entries reversed.\<close>

fun deliver_entries ::
  "utils \<Rightarrow> bot option \<Rightarrow> string \<Rightarrow> pydict list \<Rightarrow> entry list \<Rightarrow> world \<Rightarrow> (exn + unit) \<times> world" where
  "deliver_entries U bot_instance category users [] w = (Inr (), w)"
| "deliver_entries U bot_instance category users (e # rest) w =
     (let title = entry_get e ''title'' ''No title'';
          link = entry_get e ''link'' [];
          summary = clean_html U (entry_get e ''summary'' (entry_get e ''description'' []));
          published = entry_get e ''published'' (entry_get e ''updated'' []);
          thumbnail_url = get_entry_thumbnail U e
      in case enqueue_for_users category title link published summary users w of
           (Inl x, w1) \<Rightarrow> (Inl x, w1)
         | (Inr u, w1) \<Rightarrow>
             deliver_entries U bot_instance category users rest
               (case bot_instance of
                  None \<Rightarrow> w1
                | Some b \<Rightarrow>
                    post_entry_to_discord b category title link summary published thumbnail_url
                      users w1))"

text \<open>
  \<^verbatim>\<open>process_feed\<close>. The subscribers are asked for as
  \<^verbatim>\<open>user_manager.get_users_by_category(category)\<close>; the attribute lookup and all
  that follows sit in the \<^verbatim>\<open>try\<close> block whose handler returns 0.
\<close>

definition process_feed ::
  "utils \<Rightarrow> net \<Rightarrow> bot option \<Rightarrow> string \<Rightarrow> string \<Rightarrow> world \<Rightarrow> nat \<times> world" where
  "process_feed U n bot_instance category feed_url w =
     (case fetch_feed n feed_url of
        None \<Rightarrow> (0, w)
      | Some feed \<Rightarrow>
          (case get_new_entries feed_url feed w of
             (new_entries, w1) \<Rightarrow>
               if new_entries = [] then (0, w1)
               else
                 (case module_getattr user_manager ''get_users_by_category'' of
                    Inl e \<Rightarrow> (0, w1)
                  | Inr get_users \<Rightarrow>
                      (case get_users category w1 of
                         (users, w2) \<Rightarrow>
                           (case deliver_entries U bot_instance category users (rev new_entries) w2 of
                              (Inl e, w3) \<Rightarrow> (0, w3)
                            | (Inr u, w3) \<Rightarrow> (length new_entries, w3))))))"

section \<open>Summaries (ai_summary.py)\<close>

text \<open>
  The module's global \<^verbatim>\<open>g4f_initialized\<close> and the external completion service.
  The service stands for the assembly of the prompt from the grouped posts and
  the call \<^verbatim>\<open>g4f.ChatCompletion.create\<close>, which share one \<^verbatim>\<open>try\<close> block.
\<close>

record ai =
  g4f_initialized :: bool
  chat_completion :: "(pyval \<times> pydict list) list \<Rightarrow> exn + string"

text \<open>\<^verbatim>\<open>str(e)\<close>, as far as a message is handed on to a caller.\<close>

fun str_exn :: "exn \<Rightarrow> string" where
  "str_exn (KeyError k) = [CHR 0x27] @ k @ [CHR 0x27]"
| "str_exn (AttributeError m) = m"
| "str_exn (TypeError m) = m"
| "str_exn OperationalError = ''storage error''"

text \<open>Lists and dictionaries cannot be dictionary keys.\<close>

fun hashable :: "pyval \<Rightarrow> bool" where
  "hashable (PList xs) = False"
| "hashable (PDict kvs) = False"
| "hashable v = True"

fun add_to_group :: "pyval \<Rightarrow> pydict \<Rightarrow> (pyval \<times> pydict list) list \<Rightarrow> (pyval \<times> pydict list) list" where
  "add_to_group c post [] = [(c, [post])]"
| "add_to_group c post ((c', ps) # groups) =
     (if c = c' then (c', ps @ [post]) # groups else (c', ps) # add_to_group c post groups)"

text \<open>The grouping loop of \<^verbatim>\<open>generate_sum\<close>, reading \<^verbatim>\<open>post["category_name"]\<close>.\<close>

fun group_by_category ::
  "pydict list \<Rightarrow> (pyval \<times> pydict list) list \<Rightarrow> exn + (pyval \<times> pydict list) list" where
  "group_by_category [] groups = Inr groups"
| "group_by_category (post # rest) groups =
     (case getitem post ''category_name'' of
        Inl e \<Rightarrow> Inl e
      | Inr category \<Rightarrow>
          if hashable category then group_by_category rest (add_to_group category post groups)
          else Inl (TypeError ''unhashable type''))"

definition generate_sum :: "ai \<Rightarrow> pydict list \<Rightarrow> string" where
  "generate_sum A posts =
     (if \<not> g4f_initialized A then ''Error: G4F not initialized. Please restart the bot.''
      else if posts = [] then ''No new posts to summarize.''
      else
        (case group_by_category posts [] of
           Inl e \<Rightarrow> ''Error generating sum: '' @ str_exn e
         | Inr groups \<Rightarrow>
             (case chat_completion A groups of
                Inl e \<Rightarrow> ''Error generating sum: '' @ str_exn e
              | Inr res \<Rightarrow> res)))"

text \<open>The counting loop of \<^verbatim>\<open>generate_user_sum\<close>: \<^verbatim>\<open>categories[cat] = categories.get(cat, 0) + 1\<close>.\<close>

fun bump :: "pyval \<Rightarrow> (pyval \<times> int) list \<Rightarrow> (pyval \<times> int) list" where
  "bump c [] = [(c, 1)]"
| "bump c ((c', k) # counts) = (if c = c' then (c', k + 1) # counts else (c', k) # bump c counts)"

fun count_categories :: "pydict list \<Rightarrow> (pyval \<times> int) list \<Rightarrow> exn + (pyval \<times> int) list" where
  "count_categories [] counts = Inr counts"
| "count_categories (post # rest) counts =
     (case getitem post ''category_name'' of
        Inl e \<Rightarrow> Inl e
      | Inr c \<Rightarrow>
          if hashable c then count_categories rest (bump c counts)
          else Inl (TypeError ''unhashable type''))"

definition failure_dict :: "string \<Rightarrow> pydict" where
  "failure_dict m = [''success'' \<mapsto> PBool False, ''msg'' \<mapsto> PStr m]"

definition generate_user_sum :: "ai \<Rightarrow> int \<Rightarrow> int \<Rightarrow> world \<Rightarrow> pydict \<times> world" where
  "generate_user_sum A uid limit w =
     (case get_unread_posts uid limit w of
        (posts, w1) \<Rightarrow>
          if posts = [] then (failure_dict ''You have no unread posts!'', w1)
          else
            (case get_user uid w1 of
               (user, w2) \<Rightarrow>
                 (let sum_text = generate_sum A posts
                  in case count_categories posts [] of
                       Inl e \<Rightarrow> (failure_dict (''Error generating sum: '' @ str_exn e), w2)
                     | Inr categories \<Rightarrow>
                         (case (case user of
                                  None \<Rightarrow> Inr (PStr ''Unknown'')
                                | Some u \<Rightarrow> getitem u ''username'') of
                            Inl e \<Rightarrow> (failure_dict (''Error generating sum: '' @ str_exn e), w2)
                          | Inr username \<Rightarrow>
                              ([''success'' \<mapsto> PBool True, ''sum'' \<mapsto> PStr sum_text,
                                ''total_posts'' \<mapsto> PInt (int (length posts)),
                                ''categories'' \<mapsto> PDict (map (\<lambda>(c, k). (c, PInt k)) categories),
                                ''username'' \<mapsto> username],
                               w2)))))"

text \<open>
  A call of \<^verbatim>\<open>utils.create_summary_embed(summary, total_posts, categories)\<close> with
  keyword arguments: a keyword that is not a parameter, or a parameter left
  without a value, is a TypeError.
\<close>

definition create_summary_embed :: "(string \<times> pyval) list \<Rightarrow> exn + message" where
  "create_summary_embed kwargs =
     (if \<exists>k \<in> set (map fst kwargs). k \<notin> set [''summary'', ''total_posts'', ''categories'']
      then Inl (TypeError ''unexpected keyword argument'')
      else
        (case (map_of kwargs ''summary'', map_of kwargs ''total_posts'', map_of kwargs ''categories'') of
           (Some s, Some t, Some c) \<Rightarrow> Inr (SummaryEmbed s t c)
         | _ \<Rightarrow> Inl (TypeError ''missing required argument'')))"

text \<open>
  \<^verbatim>\<open>send_sum_to_user\<close>. The embed is built with the keywords \<^verbatim>\<open>sum\<close>, \<^verbatim>\<open>total_posts\<close>
  and \<^verbatim>\<open>categories\<close>; the mailbox is cleared in the inner \<^verbatim>\<open>try\<close>, after the send.
\<close>

definition send_sum_to_user :: "ai \<Rightarrow> bot \<Rightarrow> int \<Rightarrow> bool \<Rightarrow> world \<Rightarrow> bool \<times> world" where
  "send_sum_to_user A b uid clear_after w =
     (case generate_user_sum A uid 50 w of
        (result, w1) \<Rightarrow>
          (case getitem result ''success'' of
             Inl e \<Rightarrow> (False, w1)
           | Inr success \<Rightarrow>
               if \<not> truthy success then
                 (case getitem result ''msg'' of
                    Inl e \<Rightarrow> (False, w1)
                  | Inr m \<Rightarrow> (False, snd (send_dm b uid (Text m) w1)))
               else
                 (case getitem result ''sum'' of
                    Inl e \<Rightarrow> (False, w1)
                  | Inr s \<Rightarrow>
                      (case getitem result ''total_posts'' of
                         Inl e \<Rightarrow> (False, w1)
                       | Inr t \<Rightarrow>
                           (case getitem result ''categories'' of
                              Inl e \<Rightarrow> (False, w1)
                            | Inr c \<Rightarrow>
                                (case create_summary_embed
                                        [(''sum'', s), (''total_posts'', t), (''categories'', c)] of
                                   Inl e \<Rightarrow> (False, w1)
                                 | Inr emb \<Rightarrow>
                                     (case send_dm b uid emb w1 of
                                        (False, w2) \<Rightarrow> (False, w2)
                                      | (True, w2) \<Rightarrow>
                                          if clear_after then (True, snd (clear_unread_posts uid w2))
                                          else (True, w2))))))))"

section \<open>Polling a feed repeatedly\<close>


section \<open>Sequences of enqueues\<close>

text \<open>
  The key of \<^verbatim>\<open>unread_posts\<close>: ids are distinct and none exceeds the AUTOINCREMENT
  counter.
\<close>

definition wf_unread :: "world \<Rightarrow> bool" where
  "wf_unread w \<longleftrightarrow>
     distinct (map p_id (unread_tbl w)) \<and> (\<forall>r \<in> set (unread_tbl w). p_id r \<le> unread_seq w)"

text \<open>The arguments of one call of \<^verbatim>\<open>add_unread_post\<close>.\<close>

record enqueue =
  e_uid :: int
  e_cat :: string
  e_title :: string
  e_link :: string
  e_published :: "string option"
  e_summary :: "string option"

fun enqueue_all :: "enqueue list \<Rightarrow> world \<Rightarrow> world" where
  "enqueue_all [] w = w"
| "enqueue_all (q # rest) w =
     enqueue_all rest
       (snd (add_unread_post (e_uid q) (e_cat q) (e_title q) (e_link q) (e_published q)
               (e_summary q) w))"

section \<open>Example states\<close>

definition entry_a :: entry where
  "entry_a = [''id'' \<mapsto> ''a'', ''title'' \<mapsto> ''T1'']"

definition entry_b :: entry where
  "entry_b = [''id'' \<mapsto> ''b'', ''title'' \<mapsto> ''T2'']"

definition entry_c :: entry where
  "entry_c = [''id'' \<mapsto> ''c'', ''title'' \<mapsto> ''T3'']"

text \<open>An item with an empty title element and neither id nor link.\<close>

definition entry_untitled :: entry where
  "entry_untitled = [''title'' \<mapsto> []]"

definition example_clock :: "nat \<Rightarrow> string" where
  "example_clock k =
     (if k = 0 then ''2024-01-01T00:00:00''
      else if k = 1 then ''2024-01-01T00:00:01''
      else if k = 2 then ''2024-01-01T00:00:02''
      else ''2024-01-01T00:00:03'')"

text \<open>One user, subscribed to \<^verbatim>\<open>tech\<close> without keywords; nothing polled yet.\<close>

definition w_init :: world where
  "w_init =
     \<lparr>users_tbl = [\<lparr>u_uid = 7, u_uname = ''ann'', u_cats = PList [PStr ''tech''],
                    u_keywords = PList [], u_created_at = ''2023-12-31T00:00:00''\<rparr>],
      last_seen_tbl = Map.empty, unread_tbl = [], unread_seq = 0, faults = [],
      clock = example_clock, ticks = 0, dms = []\<rparr>"

text \<open>The same with a stored watermark for the feed.\<close>

definition w_seen :: "string \<Rightarrow> world" where
  "w_seen entry_id = w_init\<lparr>last_seen_tbl := [''http://feed'' \<mapsto> (entry_id, ''2023-12-31T12:00:00'')]\<rparr>"

text \<open>The state \<^verbatim>\<open>w_init\<close> with other keywords stored for the user.\<close>

definition w_keywords :: "pyval \<Rightarrow> world" where
  "w_keywords kws = w_init\<lparr>users_tbl := map (\<lambda>r. r\<lparr>u_keywords := kws\<rparr>) (users_tbl w_init)\<rparr>"

text \<open>Four enqueues for user 7: three in \<^verbatim>\<open>tech\<close>, one in \<^verbatim>\<open>news\<close>.\<close>

definition example_posts :: "enqueue list" where
  "example_posts =
     [\<lparr>e_uid = 7, e_cat = ''tech'', e_title = ''P1'', e_link = ''http://p/1'',
       e_published = None, e_summary = None\<rparr>,
      \<lparr>e_uid = 7, e_cat = ''news'', e_title = ''N1'', e_link = ''http://n/1'',
       e_published = None, e_summary = None\<rparr>,
      \<lparr>e_uid = 7, e_cat = ''tech'', e_title = ''P2'', e_link = ''http://p/2'',
       e_published = None, e_summary = None\<rparr>,
      \<lparr>e_uid = 7, e_cat = ''tech'', e_title = ''P3'', e_link = ''http://p/3'',
       e_published = None, e_summary = None\<rparr>]"

definition example_utils :: utils where
  "example_utils = \<lparr>clean_html = (\<lambda>s. s), get_entry_thumbnail = (\<lambda>e. None)\<rparr>"

section \<open>Properties of the novelty filter\<close>

lemmas example_defs = w_init_def w_seen_def w_keywords_def entry_a_def entry_b_def entry_c_def
  entry_untitled_def example_clock_def example_utils_def

lemmas storage_defs = connect_def utcnow_def get_last_seen_def update_last_seen_def

lemmas poll_defs = get_new_entries_def storage_defs example_defs get_entry_id_def Let_def

lemma connect_last_seen [simp]: "last_seen_tbl (snd (connect w)) = last_seen_tbl w"
  by (simp add: connect_def split: list.splits)

lemma get_last_seen_last_seen [simp]:
  "last_seen_tbl (snd (get_last_seen url w)) = last_seen_tbl w"
  by (simp add: get_last_seen_def connect_def split: list.splits bool.splits)

lemma novelty_loop_absent:
  "\<forall>e\<in>set es. get_entry_id e \<noteq> seen \<Longrightarrow>
   snd (novelty_loop (Some seen) es latest_id acc) = acc @ es"
  by (induction es arbitrary: latest_id acc) (simp_all add: Let_def)

lemma fst_get_new_entries:
  "fst (get_new_entries feed_url entries w) =
     (if entries = [] then []
      else snd (novelty_loop (fst (get_last_seen feed_url w)) entries None []))"
  by (simp add: get_new_entries_def split: prod.splits option.splits)

text \<open>
  C3. A feed polled while \<^verbatim>\<open>get_last_seen\<close> returns no watermark, with a non-empty
  entry list, has exactly one new entry: the first (newest) entry of the list.
\<close>

theorem get_new_entries_first_poll:
  assumes "fst (get_last_seen feed_url w) = None" and "entries \<noteq> []"
  shows "fst (get_new_entries feed_url entries w) = [hd entries]"
proof -
  obtain e rest where es: "entries = e # rest"
    using assms(2) by (cases entries) auto
  obtain w1 where g: "get_last_seen feed_url w = (None, w1)"
    using assms(1) by (cases "get_last_seen feed_url w") auto
  show ?thesis
    by (simp add: get_new_entries_def g es Let_def)
qed

theorem get_new_entries_first_poll_witness:
  "fst (get_last_seen ''http://feed'' w_init) = None \<and> [entry_b, entry_a] \<noteq> [] \<and>
   fst (get_new_entries ''http://feed'' [entry_b, entry_a] w_init) = [entry_b]"
  using get_new_entries_first_poll [of "''http://feed''" w_init "[entry_b, entry_a]"]
  by (simp add: get_last_seen_def connect_def w_init_def)

text \<open>
  C4, as stated: with the entries \<^verbatim>\<open>[E1..En]\<close> newest first and the stored watermark
  equal to the id of \<^verbatim>\<open>En\<close>, the new-entry set is empty and the watermark is
  unchanged. It fails for two entries \<^verbatim>\<open>b\<close> (newest) and \<^verbatim>\<open>a\<close> with the watermark
  \<^verbatim>\<open>a\<close>: the walk from the newest entry collects \<^verbatim>\<open>b\<close> before it meets the
  watermark, and the watermark moves to \<^verbatim>\<open>b\<close>.
\<close>

theorem watermark_oldest_counterexample:
  "get_entry_id (last [entry_b, entry_a]) = ''a'' \<and>
   fst (get_last_seen ''http://feed'' (w_seen ''a'')) = Some ''a'' \<and>
   fst (get_new_entries ''http://feed'' [entry_b, entry_a] (w_seen ''a'')) = [entry_b] \<and>
   map_option fst
     (last_seen_tbl (snd (get_new_entries ''http://feed'' [entry_b, entry_a] (w_seen ''a'')))
        ''http://feed'') = Some ''b''"
  by (simp add: get_new_entries_def storage_defs example_defs get_entry_id_def Let_def)

text \<open>
  C4, amended: when the stored watermark equals the id of the first (newest)
  fetched entry, the poll produces no new entry and leaves the table of
  watermarks as it was.
\<close>

theorem get_new_entries_watermark_newest:
  assumes "entries \<noteq> []"
    and "fst (get_last_seen feed_url w) = Some (get_entry_id (hd entries))"
  shows "fst (get_new_entries feed_url entries w) = [] \<and>
         last_seen_tbl (snd (get_new_entries feed_url entries w)) = last_seen_tbl w"
proof -
  obtain e rest where es: "entries = e # rest"
    using assms(1) by (cases entries) auto
  obtain w1 where g: "get_last_seen feed_url w = (Some (get_entry_id e), w1)"
    using assms(2) es by (cases "get_last_seen feed_url w") auto
  have "last_seen_tbl w1 = last_seen_tbl w"
    using get_last_seen_last_seen [of feed_url w] g by simp
  then show ?thesis
    by (simp add: get_new_entries_def g es Let_def)
qed

theorem get_new_entries_watermark_newest_witness:
  "[entry_b, entry_a] \<noteq> [] \<and>
   fst (get_last_seen ''http://feed'' (w_seen ''b'')) = Some (get_entry_id (hd [entry_b, entry_a])) \<and>
   fst (get_new_entries ''http://feed'' [entry_b, entry_a] (w_seen ''b'')) = [] \<and>
   last_seen_tbl (snd (get_new_entries ''http://feed'' [entry_b, entry_a] (w_seen ''b''))) =
     last_seen_tbl (w_seen ''b'')"
  using get_new_entries_watermark_newest [of "[entry_b, entry_a]" "''http://feed''" "w_seen ''b''"]
  by (simp add: storage_defs example_defs get_entry_id_def)

text \<open>
  C5. When a watermark is stored and no fetched entry has it as its derived id,
  the new entries are the whole fetched list, in the order fetched.
\<close>

theorem get_new_entries_watermark_absent:
  assumes "fst (get_last_seen feed_url w) = Some seen"
    and "\<forall>e\<in>set entries. get_entry_id e \<noteq> seen"
  shows "fst (get_new_entries feed_url entries w) = entries"
  using assms by (simp add: fst_get_new_entries novelty_loop_absent)

theorem get_new_entries_watermark_absent_witness:
  "fst (get_last_seen ''http://feed'' (w_seen ''z'')) = Some ''z'' \<and>
   get_entry_id entry_b \<noteq> ''z'' \<and> get_entry_id entry_a \<noteq> ''z'' \<and>
   fst (get_new_entries ''http://feed'' [entry_b, entry_a] (w_seen ''z'')) = [entry_b, entry_a]"
  using get_new_entries_watermark_absent
    [of "''http://feed''" "w_seen ''z''" "''z''" "[entry_b, entry_a]"]
  by (simp add: storage_defs example_defs get_entry_id_def)

section \<open>Properties of \<^verbatim>\<open>process_feed\<close>\<close>

lemma user_manager_lookup:
  "module_getattr user_manager ''get_users_by_category'' = Inl (AttributeError ''get_users_by_category'')"
  by (simp add: module_getattr_def user_manager_def)

lemma process_feed_eq:
  "process_feed U n bot_instance category feed_url w =
     (case n feed_url of
        None \<Rightarrow> (0, w)
      | Some feed \<Rightarrow> (0, snd (get_new_entries feed_url feed w)))"
  by (simp add: process_feed_def fetch_feed_def user_manager_lookup split: option.splits prod.splits)

lemma connect_unread [simp]:
  "unread_tbl (snd (connect w)) = unread_tbl w" "unread_seq (snd (connect w)) = unread_seq w"
  by (simp_all add: connect_def split: list.splits)

lemma get_last_seen_unread [simp]: "unread_tbl (snd (get_last_seen url w)) = unread_tbl w"
  by (simp add: get_last_seen_def connect_def split: list.splits bool.splits)

lemma update_last_seen_unread [simp]:
  "unread_tbl (snd (update_last_seen url i w)) = unread_tbl w"
  by (simp add: update_last_seen_def connect_def utcnow_def split: list.splits bool.splits)

lemma get_new_entries_unread [simp]:
  "unread_tbl (snd (get_new_entries url feed w)) = unread_tbl w"
proof -
  obtain seen w1 where g: "get_last_seen url w = (seen, w1)"
    by (cases "get_last_seen url w") auto
  have "unread_tbl w1 = unread_tbl w"
    using get_last_seen_unread [of url w] g by simp
  then show ?thesis
    by (simp add: get_new_entries_def g split: prod.splits option.splits)
qed

text \<open>No call of \<^verbatim>\<open>process_feed\<close> changes the table of unread posts.\<close>

lemma process_feed_unread:
  "unread_tbl (snd (process_feed U n b cat url w)) = unread_tbl w"
  by (simp add: process_feed_eq split: option.splits)

text \<open>
  \<^verbatim>\<open>get_users_by_cat\<close> itself never returns a user: the dictionaries of
  \<^verbatim>\<open>get_all_users\<close> have the key \<^verbatim>\<open>cats\<close>, not \<^verbatim>\<open>subscribed_cats\<close>.
\<close>

lemma users_subscribed_rows:
  "users_subscribed cat (map all_users_dict rows) =
     (if rows = [] then Inr [] else Inl (KeyError ''subscribed_cats''))"
  by (cases rows) (simp_all add: getitem_def all_users_dict_def)

lemma get_users_by_cat_empty: "fst (get_users_by_cat cat w) = []"
proof -
  obtain ok w1 where c: "connect w = (ok, w1)"
    by (cases "connect w") auto
  show ?thesis
    by (cases ok) (simp_all add: get_users_by_cat_def get_all_users_def c users_subscribed_rows)
qed

text \<open>
  C1 says that \<^verbatim>\<open>process_feed\<close> enqueues an unread post for every new entry and
  every subscriber of the category whose keyword filter passes. At the state
  \<^verbatim>\<open>w_init\<close> the poll of a feed with the entries \<^verbatim>\<open>b\<close> (newest) and \<^verbatim>\<open>a\<close> finds
  \<^verbatim>\<open>b\<close> new, user 7 follows the category and the filter passes, yet
  \<^verbatim>\<open>process_feed\<close> returns 0 with the watermark written and no unread post stored:
  \<^verbatim>\<open>user_manager.get_users_by_category\<close> is not an attribute of the module.
\<close>

theorem process_feed_enqueues_nothing:
  "fst (get_new_entries ''http://feed'' [entry_b, entry_a] w_init) = [entry_b] \<and>
   map (\<lambda>r. (u_uid r, py_contains (PStr ''tech'') (u_cats r))) (users_tbl w_init) = [(7, Inr True)] \<and>
   fst (should_show_post 7 (entry_get entry_b ''title'' ''No title'') [] w_init) \<and>
   process_feed example_utils [''http://feed'' \<mapsto> [entry_b, entry_a]] None ''tech''
       ''http://feed'' w_init =
     (0, w_init\<lparr>ticks := 1, last_seen_tbl := [''http://feed'' \<mapsto> (''b'', ''2024-01-01T00:00:00'')]\<rparr>) \<and>
   unread_tbl
     (snd (process_feed example_utils [''http://feed'' \<mapsto> [entry_b, entry_a]] None ''tech''
             ''http://feed'' w_init)) = []"
  by (simp add: process_feed_eq poll_defs should_show_post_def should_show_post_body_def
      get_user_keywords_def get_user_def user_dict_def getitem_def entry_get_def)

section \<open>Repeated polls\<close>

lemma novelty_loop_latest: "fst (novelty_loop seen es (Some l) acc) = Some l"
  by (induction es arbitrary: acc) (auto simp: Let_def split: option.splits)

lemma novelty_loop_Some:
  "snd (novelty_loop (Some seen) es latest_id acc) =
     acc @ takeWhile (\<lambda>e. get_entry_id e \<noteq> seen) es"
  by (induction es arbitrary: latest_id acc) (simp_all add: Let_def)

lemma connect_no_faults: "faults w = [] \<Longrightarrow> connect w = (True, w)"
  by (simp add: connect_def)

lemma get_last_seen_no_faults:
  "faults w = [] \<Longrightarrow> get_last_seen url w = (map_option fst (last_seen_tbl w url), w)"
  by (simp add: get_last_seen_def connect_no_faults)

lemma get_new_entries_no_faults:
  assumes "faults w = []" and "feed \<noteq> []" and "get_entry_id (hd feed) \<noteq> []"
  shows "faults (snd (get_new_entries url feed w)) = [] \<and>
         map_option fst (last_seen_tbl (snd (get_new_entries url feed w)) url) =
           Some (get_entry_id (hd feed))"
proof -
  obtain e rest where es: "feed = e # rest"
    using assms(2) by (cases feed) auto
  have upd: "update_last_seen url i w =
      (True, w\<lparr>ticks := Suc (ticks w), last_seen_tbl := (last_seen_tbl w)(url \<mapsto> (i, clock w (ticks w)))\<rparr>)" for i
    using assms(1) by (simp add: update_last_seen_def connect_no_faults utcnow_def)
  show ?thesis
  proof (cases "last_seen_tbl w url")
    case None
    then show ?thesis
      using assms by (simp add: get_new_entries_def get_last_seen_no_faults es Let_def upd)
  next
    case (Some row)
    obtain latest new where nl:
      "novelty_loop (Some (fst row)) rest (Some (get_entry_id e)) [e] = (latest, new)"
      by (cases "novelty_loop (Some (fst row)) rest (Some (get_entry_id e)) [e]") auto
    have "latest = Some (get_entry_id e)"
      using novelty_loop_latest [of "Some (fst row)" rest "get_entry_id e" "[e]"] nl by simp
    moreover have "new \<noteq> []"
      using novelty_loop_Some [of "fst row" rest "Some (get_entry_id e)" "[e]"] nl by simp
    ultimately show ?thesis
      using assms Some nl
      by (cases row) (simp add: get_new_entries_def get_last_seen_no_faults es Let_def upd)
  qed
qed

lemma takeWhile_prefix_batch:
  assumes "feed \<noteq> []" and "\<not> p (hd feed)"
  shows "set (takeWhile p (batch @ feed)) \<subseteq> set batch"
proof (cases "\<forall>x\<in>set batch. p x")
  case True
  then have "takeWhile p (batch @ feed) = batch @ takeWhile p feed"
    by (simp add: takeWhile_append2)
  moreover have "takeWhile p feed = []"
    using assms by (cases feed) auto
  ultimately show ?thesis by simp
next
  case False
  then obtain x where "x \<in> set batch" and "\<not> p x" by blast
  then have "takeWhile p (batch @ feed) = takeWhile p batch"
    by (simp add: takeWhile_append1)
  then show ?thesis
    using set_takeWhileD by fastforce
qed

lemma new_entries_within_batch:
  assumes "faults w = []" and "feed \<noteq> []"
    and "map_option fst (last_seen_tbl w url) = Some (get_entry_id (hd feed))"
  shows "set (fst (get_new_entries url (batch @ feed) w)) \<subseteq> set batch"
proof -
  have gl: "fst (get_last_seen url w) = Some (get_entry_id (hd feed))"
    using assms(1,3) by (simp only: get_last_seen_no_faults fst_conv)
  have "fst (get_new_entries url (batch @ feed) w) =
          takeWhile (\<lambda>e. get_entry_id e \<noteq> get_entry_id (hd feed)) (batch @ feed)"
    using assms(2) novelty_loop_Some [of "get_entry_id (hd feed)" "batch @ feed" None "[]"]
    by (simp add: fst_get_new_entries gl)
  then show ?thesis
    using takeWhile_prefix_batch [of feed "\<lambda>e. get_entry_id e \<noteq> get_entry_id (hd feed)" batch] assms(2)
    by simp
qed


text \<open>
  With the storage working and a non-empty id on the newest entry, a second
  poll of the same entry list finds nothing new and changes neither the
  watermarks nor the unread posts.
\<close>

lemma get_new_entries_none_new:
  assumes "fst (get_new_entries url feed w) = []"
  shows "last_seen_tbl (snd (get_new_entries url feed w)) = last_seen_tbl w"
proof -
  obtain seen w1 where g: "get_last_seen url w = (seen, w1)"
    by (cases "get_last_seen url w") auto
  have "last_seen_tbl w1 = last_seen_tbl w"
    using get_last_seen_last_seen [of url w] g by simp
  then show ?thesis
    using assms by (simp add: get_new_entries_def g split: prod.splits option.splits if_splits)
qed

lemma second_poll_finds_nothing:
  assumes "faults w = []" and "feed \<noteq> []" and "get_entry_id (hd feed) \<noteq> []"
    and "w1 = snd (process_feed U [url \<mapsto> feed] b cat url w)"
  shows "fst (get_new_entries url feed w1) = [] \<and>
         last_seen_tbl (snd (process_feed U [url \<mapsto> feed] b cat url w1)) = last_seen_tbl w1 \<and>
         unread_tbl (snd (process_feed U [url \<mapsto> feed] b cat url w1)) = unread_tbl w1"
proof -
  have w1: "w1 = snd (get_new_entries url feed w)"
    using assms(4) by (simp add: process_feed_eq)
  have inv: "faults w1 = []"
      "map_option fst (last_seen_tbl w1 url) = Some (get_entry_id (hd feed))"
    using get_new_entries_no_faults [OF assms(1,2,3), of url] w1 by simp_all
  have "set (fst (get_new_entries url ([] @ feed) w1)) \<subseteq> set []"
    by (rule new_entries_within_batch [OF inv(1) assms(2) inv(2)])
  then have none: "fst (get_new_entries url feed w1) = []"
    by simp
  then show ?thesis
    using get_new_entries_none_new [OF none] by (simp add: process_feed_eq)
qed

text \<open>
  C6 says that a second poll of an unchanged entry list finds no new entry. For
  a feed whose only item has an empty title and neither id nor link, the derived
  id is empty, the first poll writes no watermark, and the second poll returns
  the same entry as new again.
\<close>

theorem repeated_poll_untitled_entry:
  "get_entry_id entry_untitled = [] \<and>
   fst (get_new_entries ''http://feed'' [entry_untitled] w_init) = [entry_untitled] \<and>
   last_seen_tbl
     (snd (process_feed example_utils [''http://feed'' \<mapsto> [entry_untitled]] None ''tech''
             ''http://feed'' w_init)) ''http://feed'' = None \<and>
   fst (get_new_entries ''http://feed'' [entry_untitled]
          (snd (process_feed example_utils [''http://feed'' \<mapsto> [entry_untitled]] None ''tech''
                  ''http://feed'' w_init))) = [entry_untitled]"
  by (simp add: process_feed_eq poll_defs)




section \<open>Properties of the keyword filter\<close>

text \<open>\<^verbatim>\<open>str_contains\<close> is the substring relation.\<close>

lemma starts_with_iff: "starts_with n h \<longleftrightarrow> (\<exists>s. h = n @ s)"
  by (induction n h rule: starts_with.induct) auto

lemma str_contains_iff: "str_contains n h \<longleftrightarrow> (\<exists>p s. h = p @ n @ s)"
proof (induction h)
  case Nil
  then show ?case by auto
next
  case (Cons c h)
  show ?case
  proof
    assume "str_contains n (c # h)"
    then consider "starts_with n (c # h)" | "str_contains n h" by auto
    then show "\<exists>p s. c # h = p @ n @ s"
    proof cases
      case 1
      then obtain s where "c # h = n @ s" using starts_with_iff by blast
      then have "c # h = [] @ n @ s" by simp
      then show ?thesis by blast
    next
      case 2
      then obtain p s where "h = p @ n @ s" using Cons.IH by blast
      then have "c # h = (c # p) @ n @ s" by simp
      then show ?thesis by blast
    qed
  next
    assume "\<exists>p s. c # h = p @ n @ s"
    then obtain p s where eq: "c # h = p @ n @ s" by blast
    show "str_contains n (c # h)"
    proof (cases p)
      case Nil
      then have "starts_with n (c # h)" using eq starts_with_iff by auto
      then show ?thesis by simp
    next
      case (Cons c' p')
      then have "h = p' @ n @ s" using eq by simp
      then have "str_contains n h" using Cons.IH by blast
      then show ?thesis by simp
    qed
  qed
qed

lemma any_keyword_in_strings:
  "any_keyword_in (map PStr kws) content = Inr (\<exists>k\<in>set kws. str_contains (lower k) content)"
  by (induction kws) auto

lemma should_show_post_body_strings:
  assumes "fst (get_user_keywords uid w) = PList (map PStr kws)"
  shows "fst (should_show_post_body uid title summary w) =
           Inr (kws = [] \<or> (\<exists>k\<in>set kws. str_contains (lower k) (lower (title @ '' '' @ summary))))"
proof -
  obtain w1 where g: "get_user_keywords uid w = (PList (map PStr kws), w1)"
    using assms by (cases "get_user_keywords uid w") auto
  show ?thesis
    by (cases kws) (simp_all add: should_show_post_body_def g any_keyword_in_strings Let_def)
qed

lemma fst_should_show_post:
  "fst (should_show_post uid title summary w) =
     (case fst (should_show_post_body uid title summary w) of Inl e \<Rightarrow> True | Inr b \<Rightarrow> b)"
  by (simp add: should_show_post_def split: prod.splits sum.splits)

lemmas keyword_defs = get_user_keywords_def get_user_def user_dict_def getitem_def connect_def
  example_defs

lemma rust_keywords:
  "fst (get_user_keywords 7 (w_keywords (PList [PStr ''rust'']))) = PList (map PStr [''rust''])"
  by (simp add: keyword_defs)

lemma rust_in_title: "str_contains (lower ''rust'') (lower (''Rust 2.0 released'' @ '' '' @ []))"
  by code_simp

lemma rust_not_in_title: "\<not> str_contains (lower ''rust'') (lower (''Go 1.22'' @ '' '' @ []))"
  by code_simp

lemma ab_in_concatenation: "str_contains (lower ''ab'') (lower (''a'' @ ''b''))"
  by code_simp

lemma ab_not_in_content: "\<not> str_contains (lower ''ab'') (lower (''a'' @ '' '' @ ''b''))"
  by code_simp

text \<open>
  C7, as stated: with a non-empty keyword set the filter passes if and only if a
  keyword is a case-insensitive substring of the concatenation of title and
  summary. For the keyword \<^verbatim>\<open>ab\<close>, the title \<^verbatim>\<open>a\<close> and the summary \<^verbatim>\<open>b\<close> the keyword
  is a substring of the concatenation, and the filter does not pass: the text
  searched has a space between title and summary.
\<close>

theorem keyword_across_texts_counterexample:
  "fst (get_user_keywords 7 (w_keywords (PList [PStr ''ab'']))) = PList [PStr ''ab''] \<and>
   str_contains (lower ''ab'') (lower (''a'' @ ''b'')) \<and>
   \<not> fst (should_show_post 7 ''a'' ''b'' (w_keywords (PList [PStr ''ab''])))"
proof -
  have k: "fst (get_user_keywords 7 (w_keywords (PList [PStr ''ab'']))) = PList (map PStr [''ab''])"
    by (simp add: keyword_defs)
  have "fst (should_show_post_body 7 ''a'' ''b'' (w_keywords (PList [PStr ''ab'']))) = Inr False"
    using should_show_post_body_strings [OF k, of "''a''" "''b''"] ab_not_in_content by simp
  then show ?thesis
    using k ab_in_concatenation by (simp add: fst_should_show_post)
qed

text \<open>
  C7, amended: for a user whose stored keywords are the strings \<^verbatim>\<open>kws\<close>, the
  filter passes if \<^verbatim>\<open>kws\<close> is empty; otherwise it passes if and only if some
  keyword, lower-cased, is a substring of the lower-cased text made of the
  title, one space and the summary.
\<close>

theorem should_show_post_keywords:
  assumes "fst (get_user_keywords uid w) = PList (map PStr kws)"
  shows "fst (should_show_post uid title summary w) \<longleftrightarrow>
           kws = [] \<or> (\<exists>k\<in>set kws. str_contains (lower k) (lower (title @ '' '' @ summary)))"
  using should_show_post_body_strings [OF assms] by (simp add: fst_should_show_post)

theorem should_show_post_keywords_witness:
  "fst (get_user_keywords 7 (w_keywords (PList [PStr ''rust'']))) = PList (map PStr [''rust'']) \<and>
   fst (should_show_post 7 ''Rust 2.0 released'' [] (w_keywords (PList [PStr ''rust'']))) \<and>
   \<not> fst (should_show_post 7 ''Go 1.22'' [] (w_keywords (PList [PStr ''rust''])))"
  using should_show_post_keywords [OF rust_keywords, of "''Rust 2.0 released''" "[]"]
    should_show_post_keywords [OF rust_keywords, of "''Go 1.22''" "[]"]
    rust_keywords rust_in_title rust_not_in_title
  by simp

lemma get_user_keywords_fault:
  "fst (connect w) = False \<Longrightarrow> fst (get_user_keywords uid w) = PList []"
  by (cases "connect w") (simp add: get_user_keywords_def get_user_def)

lemma should_show_post_body_fault:
  assumes "fst (connect w) = False"
  shows "fst (should_show_post_body uid title summary w) = Inr True"
proof -
  obtain w1 where g: "get_user_keywords uid w = (PList [], w1)"
    using get_user_keywords_fault [OF assms, of uid] by (cases "get_user_keywords uid w") auto
  show ?thesis by (simp add: should_show_post_body_def g)
qed

text \<open>
  C8. When the storage raises at the keyword lookup (the one database operation
  of the filter), or when the body of \<^verbatim>\<open>should_show_post\<close> raises, the function
  returns \<^verbatim>\<open>True\<close>.
\<close>

theorem should_show_post_fails_open:
  assumes "fst (connect w) = False \<or> isl (fst (should_show_post_body uid title summary w))"
  shows "fst (should_show_post uid title summary w)"
  using assms should_show_post_body_fault [of w uid title summary]
  by (auto simp: fst_should_show_post split: sum.splits)

theorem should_show_post_fails_open_witness:
  "fst (connect (w_keywords (PList [PStr ''rust''])\<lparr>faults := [True]\<rparr>)) = False \<and>
   fst (should_show_post 7 ''Go 1.22'' [] (w_keywords (PList [PStr ''rust''])\<lparr>faults := [True]\<rparr>)) \<and>
   isl (fst (should_show_post_body 7 ''Go 1.22'' [] (w_keywords (PList [PInt 5])))) \<and>
   fst (should_show_post 7 ''Go 1.22'' [] (w_keywords (PList [PInt 5])))"
proof -
  have f: "fst (connect (w_keywords (PList [PStr ''rust''])\<lparr>faults := [True]\<rparr>)) = False"
    by (simp add: connect_def)
  have r: "isl (fst (should_show_post_body 7 ''Go 1.22'' [] (w_keywords (PList [PInt 5]))))"
    by (simp add: should_show_post_body_def keyword_defs)
  show ?thesis
    using should_show_post_fails_open [of "w_keywords (PList [PStr ''rust''])\<lparr>faults := [True]\<rparr>" 7 "''Go 1.22''" "[]"]
      should_show_post_fails_open [of "w_keywords (PList [PInt 5])" 7 "''Go 1.22''" "[]"] f r
    by simp
qed

section \<open>Properties of \<^verbatim>\<open>send_sum_to_user\<close>\<close>

text \<open>
  The dictionaries of \<^verbatim>\<open>get_unread_posts\<close> have the key \<^verbatim>\<open>cat\<close>, and
  \<^verbatim>\<open>generate_user_sum\<close> reads \<^verbatim>\<open>post["category_name"]\<close>: with or without unread
  posts the function reports failure. A success would next meet the keyword
  \<^verbatim>\<open>sum\<close>, which \<^verbatim>\<open>create_summary_embed\<close> does not take.
\<close>

lemma getitem_category_name:
  "getitem (post_dict r) ''category_name'' = Inl (KeyError ''category_name'')"
  by (simp add: getitem_def post_dict_def)

lemma count_categories_rows:
  "rows \<noteq> [] \<Longrightarrow>
   count_categories (map post_dict rows) counts = Inl (KeyError ''category_name'')"
  by (cases rows) (simp_all add: getitem_category_name)

lemma get_unread_posts_rows:
  "\<exists>rows. fst (get_unread_posts uid limit w) = map post_dict rows"
proof -
  obtain ok w1 where c: "connect w = (ok, w1)"
    by (cases "connect w") auto
  show ?thesis
  proof (cases ok)
    case True
    then show ?thesis by (auto simp: get_unread_posts_def c)
  next
    case False
    then have "fst (get_unread_posts uid limit w) = map post_dict []"
      by (simp add: get_unread_posts_def c)
    then show ?thesis by blast
  qed
qed

lemma get_unread_posts_unread [simp]:
  "unread_tbl (snd (get_unread_posts uid limit w)) = unread_tbl w"
  using connect_unread(1) [of w]
  by (cases "connect w") (auto simp: get_unread_posts_def split: bool.splits)

lemma get_user_unread [simp]: "unread_tbl (snd (get_user uid w)) = unread_tbl w"
  using connect_unread(1) [of w]
  by (cases "connect w") (auto simp: get_user_def split: bool.splits)

lemma send_dm_unread [simp]: "unread_tbl (snd (send_dm b uid m w)) = unread_tbl w"
  by (simp add: send_dm_def)

lemma generate_user_sum_fails:
  "\<exists>m. fst (generate_user_sum A uid limit w) = failure_dict m"
proof -
  obtain posts w1 where g: "get_unread_posts uid limit w = (posts, w1)"
    by (cases "get_unread_posts uid limit w") auto
  obtain rows where rows: "posts = map post_dict rows"
    using get_unread_posts_rows [of uid limit w] g by auto
  obtain user w2 where u: "get_user uid w1 = (user, w2)"
    by (cases "get_user uid w1") auto
  show ?thesis
  proof (cases "rows = []")
    case True
    then have "fst (generate_user_sum A uid limit w) = failure_dict ''You have no unread posts!''"
      by (simp add: generate_user_sum_def g rows)
    then show ?thesis by blast
  next
    case False
    then have "fst (generate_user_sum A uid limit w) =
        failure_dict (''Error generating sum: '' @ str_exn (KeyError ''category_name''))"
      by (simp add: generate_user_sum_def g rows u count_categories_rows Let_def)
    then show ?thesis by blast
  qed
qed

lemma generate_user_sum_unread [simp]:
  "unread_tbl (snd (generate_user_sum A uid limit w)) = unread_tbl w"
proof -
  obtain posts w1 where g: "get_unread_posts uid limit w = (posts, w1)"
    by (cases "get_unread_posts uid limit w") auto
  obtain user w2 where u: "get_user uid w1 = (user, w2)"
    by (cases "get_user uid w1") auto
  have "unread_tbl w1 = unread_tbl w"
    using get_unread_posts_unread [of uid limit w] g by simp
  moreover have "unread_tbl w2 = unread_tbl w1"
    using get_user_unread [of uid w1] u by simp
  ultimately show ?thesis
    by (simp add: generate_user_sum_def g u Let_def split: sum.splits option.splits)
qed

lemma create_summary_embed_sum_keyword:
  "create_summary_embed [(''sum'', s), (''total_posts'', t), (''categories'', c)] =
     Inl (TypeError ''unexpected keyword argument'')"
  by (simp add: create_summary_embed_def)

text \<open>
  C9. The mailbox is cleared only after the summary was delivered: whenever
  generating or sending the summary fails, \<^verbatim>\<open>send_sum_to_user\<close> returns \<^verbatim>\<open>False\<close>
  and the unread posts are what they were. Here this is every call, since
  \<^verbatim>\<open>generate_user_sum\<close> always reports failure.
\<close>

theorem send_sum_to_user_keeps_unread:
  "fst (send_sum_to_user A b uid clear_after w) = False \<and>
   unread_tbl (snd (send_sum_to_user A b uid clear_after w)) = unread_tbl w"
proof -
  obtain result w1 where g: "generate_user_sum A uid 50 w = (result, w1)"
    by (cases "generate_user_sum A uid 50 w") auto
  obtain m where m: "result = failure_dict m"
    using generate_user_sum_fails [of A uid 50 w] g by auto
  have "unread_tbl w1 = unread_tbl w"
    using generate_user_sum_unread [of A uid 50 w] g by simp
  then show ?thesis
    by (simp add: send_sum_to_user_def g m failure_dict_def getitem_def)
qed

section \<open>Properties of the unread mailbox\<close>

text \<open>The ordering is a rearrangement of the rows, most recent first.\<close>

lemma set_insert_desc [simp]: "set (insert_desc r xs) = insert r (set xs)"
  by (induction xs) auto

lemma length_insert_desc [simp]: "length (insert_desc r xs) = Suc (length xs)"
  by (induction xs) auto

lemma distinct_insert_desc: "distinct xs \<Longrightarrow> r \<notin> set xs \<Longrightarrow> distinct (insert_desc r xs)"
  by (induction xs) auto

lemma sorted_insert_desc:
  "sorted_wrt newer_first xs \<Longrightarrow> sorted_wrt newer_first (insert_desc r xs)"
  by (induction xs) (auto intro: order_trans)

lemma set_order_by [simp]: "set (order_by_created_at_desc rows) = set rows"
  by (induction rows) (simp_all add: order_by_created_at_desc_def)

lemma length_order_by [simp]: "length (order_by_created_at_desc rows) = length rows"
  by (induction rows) (simp_all add: order_by_created_at_desc_def)

lemma distinct_order_by: "distinct rows \<Longrightarrow> distinct (order_by_created_at_desc rows)"
proof (induction rows)
  case Nil
  then show ?case by (simp add: order_by_created_at_desc_def)
next
  case (Cons r rows)
  then have "distinct (order_by_created_at_desc rows)" and "r \<notin> set (order_by_created_at_desc rows)"
    by simp_all
  then have "distinct (insert_desc r (order_by_created_at_desc rows))"
    by (rule distinct_insert_desc)
  then show ?case by (simp add: order_by_created_at_desc_def)
qed

lemma sorted_order_by: "sorted_wrt newer_first (order_by_created_at_desc rows)"
proof (induction rows)
  case Nil
  then show ?case by (simp add: order_by_created_at_desc_def)
next
  case (Cons r rows)
  then have "sorted_wrt newer_first (insert_desc r (order_by_created_at_desc rows))"
    by (rule sorted_insert_desc)
  then show ?case by (simp add: order_by_created_at_desc_def)
qed

text \<open>Enqueues keep the ids of the table distinct.\<close>

lemma connect_wf: "wf_unread w \<Longrightarrow> wf_unread (snd (connect w))"
  by (simp add: wf_unread_def)

lemma add_unread_post_wf:
  assumes "wf_unread w"
  shows "wf_unread (snd (add_unread_post uid cat title link published summary w))"
proof -
  obtain ok w1 where c: "connect w = (ok, w1)"
    by (cases "connect w") auto
  have w1: "wf_unread w1"
    using connect_wf [OF assms] c by simp
  show ?thesis
  proof (cases ok)
    case True
    have "\<forall>r\<in>set (unread_tbl w1). p_id r \<noteq> Suc (unread_seq w1)"
      using w1 by (auto simp: wf_unread_def)
    then show ?thesis
      using w1 True by (auto simp: add_unread_post_def c utcnow_def wf_unread_def)
  next
    case False
    then show ?thesis using w1 by (simp add: add_unread_post_def c)
  qed
qed

lemma enqueue_all_wf: "wf_unread w \<Longrightarrow> wf_unread (enqueue_all posts w)"
  by (induction posts arbitrary: w) (simp_all add: add_unread_post_wf)

text \<open>What a successful trim leaves in the mailbox of the pair.\<close>

lemma take_drop_newer:
  assumes "sorted_wrt newer_first s" and "k \<in> set (take n s)" and "e \<in> set s" and "e \<notin> set (take n s)"
  shows "p_created_at e \<le> p_created_at k"
proof -
  have "e \<in> set (drop n s)"
    using assms(3,4) by (metis Un_iff append_take_drop_id set_append)
  moreover have "sorted_wrt newer_first (take n s @ drop n s)"
    using assms(1) by simp
  ultimately show ?thesis
    using assms(2) unfolding sorted_wrt_append by blast
qed

lemma filter_kept_ids:
  assumes "distinct (map p_id m)" and "set t \<subseteq> set m"
  shows "filter (\<lambda>r. p_id r \<in> set (map p_id t)) m = filter (\<lambda>r. r \<in> set t) m"
proof (rule filter_cong [OF refl])
  fix r assume r: "r \<in> set m"
  have inj: "inj_on p_id (set m)"
    using assms(1) by (simp add: distinct_map)
  show "(p_id r \<in> set (map p_id t)) = (r \<in> set t)"
  proof
    assume "p_id r \<in> set (map p_id t)"
    then obtain x where x: "x \<in> set t" "p_id x = p_id r" by auto
    then have "x = r" using inj r assms(2) by (auto dest: inj_onD)
    then show "r \<in> set t" using x by simp
  next
    assume "r \<in> set t"
    then show "p_id r \<in> set (map p_id t)" by simp
  qed
qed

lemma length_filter_member:
  assumes "distinct m" and "distinct t" and "set t \<subseteq> set m"
  shows "length (filter (\<lambda>r. r \<in> set t) m) = length t"
proof -
  have "length (filter (\<lambda>r. r \<in> set t) m) = card ({r. r \<in> set t} \<inter> set m)"
    using assms(1) by (rule distinct_length_filter)
  also have "{r. r \<in> set t} \<inter> set m = set t"
    using assms(3) by auto
  also have "card (set t) = length t"
    using assms(2) by (rule distinct_card)
  finally show ?thesis .
qed

lemma mailbox_after_trim:
  assumes "trim_unread_posts uid cat limit w = (True, w2)"
  shows "mailbox uid cat w2 =
           filter (\<lambda>r. p_id r \<in> set (map p_id (sql_limit limit (order_by_created_at_desc (mailbox uid cat (snd (connect w)))))))
             (mailbox uid cat (snd (connect w)))"
proof -
  obtain ok w1 where c: "connect w = (ok, w1)"
    by (cases "connect w") auto
  have ok: "ok" using assms by (cases ok) (simp_all add: trim_unread_posts_def c)
  have "w2 = w1\<lparr>unread_tbl :=
                    filter (\<lambda>r. \<not> (p_uid r = uid \<and> p_cat r = cat \<and>
                        p_id r \<notin> set (map p_id (sql_limit limit (order_by_created_at_desc (mailbox uid cat w1))))))
                      (unread_tbl w1)\<rparr>"
    using assms ok by (simp add: trim_unread_posts_def c Let_def)
  then show ?thesis
    by (auto simp: mailbox_def c intro: filter_cong)
qed

lemma mailbox_connect [simp]: "mailbox uid cat (snd (connect w)) = mailbox uid cat w"
  by (simp add: mailbox_def)

lemma example_posts_enqueued:
  "unread_tbl (enqueue_all example_posts w_init) =
     [\<lparr>p_id = 1, p_uid = 7, p_cat = ''tech'', p_title = ''P1'', p_link = ''http://p/1'',
       p_published = None, p_summary = None, p_created_at = ''2024-01-01T00:00:00''\<rparr>,
      \<lparr>p_id = 2, p_uid = 7, p_cat = ''news'', p_title = ''N1'', p_link = ''http://n/1'',
       p_published = None, p_summary = None, p_created_at = ''2024-01-01T00:00:01''\<rparr>,
      \<lparr>p_id = 3, p_uid = 7, p_cat = ''tech'', p_title = ''P2'', p_link = ''http://p/2'',
       p_published = None, p_summary = None, p_created_at = ''2024-01-01T00:00:02''\<rparr>,
      \<lparr>p_id = 4, p_uid = 7, p_cat = ''tech'', p_title = ''P3'', p_link = ''http://p/3'',
       p_published = None, p_summary = None, p_created_at = ''2024-01-01T00:00:03''\<rparr>]"
  by (simp add: example_posts_def add_unread_post_def connect_def utcnow_def w_init_def
      example_clock_def)

lemma example_posts_faults: "faults (enqueue_all example_posts w_init) = []"
  by (simp add: example_posts_def add_unread_post_def connect_def utcnow_def w_init_def)

lemma example_trim:
  "fst (trim_unread_posts 7 ''tech'' 2 (enqueue_all example_posts w_init)) = True \<and>
   map p_title (mailbox 7 ''tech'' (snd (trim_unread_posts 7 ''tech'' 2 (enqueue_all example_posts w_init))))
     = [''P2'', ''P3'']"
  by (simp add: trim_unread_posts_def connect_def example_posts_faults example_posts_enqueued
      mailbox_def sql_limit_def order_by_created_at_desc_def Let_def)

text \<open>
  C2. After any sequence of enqueues (from a table with distinct ids) and a
  trim of a pair with limit \<^verbatim>\<open>K\<close> that the storage carried out, the mailbox of the
  pair holds \<^verbatim>\<open>min K n\<close> of its \<^verbatim>\<open>n\<close> posts, hence at most \<^verbatim>\<open>K\<close>, and no evicted post
  was created later than a post that was kept.
\<close>

theorem trim_keeps_most_recent:
  assumes "wf_unread w0" and "w1 = enqueue_all posts w0" and "0 \<le> K"
    and "trim_unread_posts uid cat K w1 = (True, w2)"
  shows "length (mailbox uid cat w2) = min (nat K) (length (mailbox uid cat w1)) \<and>
         length (mailbox uid cat w2) \<le> nat K \<and>
         set (mailbox uid cat w2) \<subseteq> set (mailbox uid cat w1) \<and>
         (\<forall>kept \<in> set (mailbox uid cat w2).
            \<forall>evicted \<in> set (mailbox uid cat w1) - set (mailbox uid cat w2).
              p_created_at evicted \<le> p_created_at kept)"
proof -
  let ?m = "mailbox uid cat w1"
  let ?s = "order_by_created_at_desc ?m"
  let ?t = "take (nat K) ?s"
  have wf: "wf_unread w1"
    using assms(1,2) by (simp add: enqueue_all_wf)
  have ids: "distinct (map p_id ?m)"
    using wf by (simp add: wf_unread_def mailbox_def distinct_map_filter)
  then have dm: "distinct ?m"
    by (simp add: distinct_map)
  have dt: "distinct ?t"
    using dm by (simp add: distinct_order_by)
  have sub: "set ?t \<subseteq> set ?m"
    using set_take_subset [of "nat K" ?s] by simp
  have "mailbox uid cat w2 = filter (\<lambda>r. p_id r \<in> set (map p_id ?t)) ?m"
    using mailbox_after_trim [OF assms(4)] assms(3) by (simp add: sql_limit_def)
  then have m2: "mailbox uid cat w2 = filter (\<lambda>r. r \<in> set ?t) ?m"
    using filter_kept_ids [OF ids sub] by simp
  have len: "length (mailbox uid cat w2) = min (nat K) (length ?m)"
    using length_filter_member [OF dm dt sub] m2 by (simp add: min.commute)
  have set2: "set (mailbox uid cat w2) = set ?t"
    using m2 sub by auto
  have newer: "p_created_at e \<le> p_created_at k"
    if "k \<in> set (mailbox uid cat w2)" and "e \<in> set ?m - set (mailbox uid cat w2)" for k e
    using take_drop_newer [of ?s k "nat K" e] sorted_order_by [of ?m] that set2 by simp
  show ?thesis
    using len set2 sub newer by auto
qed

theorem trim_keeps_most_recent_witness:
  "wf_unread w_init \<and> (0::int) \<le> 2 \<and>
   fst (trim_unread_posts 7 ''tech'' 2 (enqueue_all example_posts w_init)) = True \<and>
   map p_title (mailbox 7 ''tech'' (enqueue_all example_posts w_init)) = [''P1'', ''P2'', ''P3''] \<and>
   map p_title
     (mailbox 7 ''tech'' (snd (trim_unread_posts 7 ''tech'' 2 (enqueue_all example_posts w_init)))) =
     [''P2'', ''P3''] \<and>
   length (mailbox 7 ''tech'' (snd (trim_unread_posts 7 ''tech'' 2 (enqueue_all example_posts w_init)))) =
     min (nat 2) (length (mailbox 7 ''tech'' (enqueue_all example_posts w_init)))"
proof -
  have wf: "wf_unread w_init"
    by (simp add: wf_unread_def w_init_def)
  have t: "trim_unread_posts 7 ''tech'' 2 (enqueue_all example_posts w_init) =
      (True, snd (trim_unread_posts 7 ''tech'' 2 (enqueue_all example_posts w_init)))"
    using example_trim by (simp add: prod_eq_iff)
  have m: "map p_title (mailbox 7 ''tech'' (enqueue_all example_posts w_init)) = [''P1'', ''P2'', ''P3'']"
    by (simp add: mailbox_def example_posts_enqueued)
  show ?thesis
    using trim_keeps_most_recent [OF wf refl _ t] wf example_trim m
    by simp
qed

end
